theory Spec2Isabelle
  imports Main
begin

section \<open>Inactivity detection for contacts and opportunities\<close>

text \<open>
  A shallow embedding of the class \<open>InactivityTools\<close> (file \<open>src/unnamed/part_000\<close>).
  The file holds two versions of the class: the first one writes progress to the console
  (lines 23--439), the second one does not (lines 462--811). Both are embedded by the same
  definitions, which take the version as a parameter and differ exactly where the two
  texts differ in what they compute.
\<close>

datatype variant = Logging | Plain

subsection \<open>Dates and timestamp fields\<close>

text \<open>
  A JavaScript \<open>Date\<close> holds a time value in milliseconds since the epoch, or \<open>NaN\<close> when
  it was built from a string that does not parse (\<open>Invalid Date\<close>). A relational operator
  applied to two dates compares the time values, and every comparison with \<open>NaN\<close> is false.
  \<open>toISOString\<close> throws a \<open>RangeError\<close> (message \<open>Invalid time value\<close> in V8) on an
  invalid date; the ISO text of a valid date is represented by its time value. Time values
  are integers without the bound of 8.64e15 milliseconds that JavaScript puts on them.
\<close>

datatype date = Invalid | Time int

fun date_ge :: "date \<Rightarrow> date \<Rightarrow> bool" where
  "date_ge (Time a) (Time b) = (b \<le> a)"
| "date_ge _ _ = False"

fun date_gt :: "date \<Rightarrow> date \<Rightarrow> bool" where
  "date_gt (Time a) (Time b) = (b < a)"
| "date_gt _ _ = False"

fun date_lt :: "date \<Rightarrow> date \<Rightarrow> bool" where
  "date_lt (Time a) (Time b) = (a < b)"
| "date_lt _ _ = False"

definition invalidTimeValue :: string where
  "invalidTimeValue = ''Invalid time value''"

fun toISOString :: "date \<Rightarrow> string + int" where
  "toISOString Invalid = Inl invalidTimeValue"
| "toISOString (Time t) = Inr t"

text \<open>
  A timestamp field of a record of the backend (\<open>dateAdded\<close>, \<open>startTime\<close>, \<open>dueDate\<close>,
  \<open>lastStatusChangeAt\<close>, \<open>lastStageChangeAt\<close>) is a string or absent. The code tests the
  field for truthiness and then builds \<open>new Date(field.replace('Z', '+00:00'))\<close>. The field
  is represented by \<open>None\<close> when it is falsy (absent, null or empty) and by \<open>Some d\<close>, where
  \<open>d\<close> is the date built from it, otherwise.
\<close>

type_synonym stamp = "date option"

text \<open>A string is truthy when it is present and not empty (\<open>if (!contact.id) continue\<close>).\<close>

fun truthy :: "string option \<Rightarrow> bool" where
  "truthy None = False"
| "truthy (Some s) = (s \<noteq> [])"

definition msPerDay :: int where
  "msPerDay = 86400000"

text \<open>
  \<open>endDate\<close> and \<open>startDate\<close> are two readings of the clock, one right after the other; they
  are taken to be the same instant \<open>now\<close>.
  \<open>startDate.setDate(endDate.getDate() - inactivityDays)\<close> moves the local calendar date of
  that instant back by \<open>inactivityDays\<close> days and keeps the local wall-clock time. What
  instant that is depends on the time zone of the runtime, which is not part of the class:
  it is a parameter, the function \<open>zone\<close> from the instant and the number of days to the
  time value \<open>setDate\<close> leaves. For the thresholds of the tool's schema (1 to 365 days)
  that time value is a valid date.
\<close>

type_synonym calendar = "int \<Rightarrow> int \<Rightarrow> int"

definition startDateOf :: "calendar \<Rightarrow> int \<Rightarrow> int \<Rightarrow> date" where
  "startDateOf zone now inactivityDays = Time (zone now inactivityDays)"

text \<open>
  Where the offset of local time from UTC is the same at both dates (always, in a zone with
  a fixed offset), a calendar day is 86400000 milliseconds.
\<close>

definition fixedOffset :: calendar where
  "fixedOffset now inactivityDays = now - inactivityDays * msPerDay"

text \<open>
  Where the clock was put forward by an hour between the two dates (a change to summer
  time, as in Europe/Berlin in March), the same wall-clock time \<open>inactivityDays\<close> days
  earlier is an hour later in UTC.
\<close>

definition acrossSpringChange :: calendar where
  "acrossSpringChange now inactivityDays = now - inactivityDays * msPerDay + 3600000"

subsection \<open>The API client\<close>

text \<open>
  The client (\<open>GHLApiClient\<close>) is not part of the class: it is a parameter. Each of its
  calls is awaited, and either the promise rejects (\<open>Rejected m\<close>, with \<open>m\<close> the text
  \<open>error instanceof Error ? error.message : String(error)\<close>), or it resolves to
  \<open>{success: false, error}\<close> (\<open>Failure\<close> with \<open>error?.message\<close>), or to
  \<open>{success: true, data}\<close>. The backend may answer the same request differently each
  time, so every call takes the state \<open>'s\<close> of the world and returns the next one.
\<close>

datatype 'a reply = Rejected string | Failure "string option" | Success 'a

type_synonym cursor = "int \<times> string"

record contact =
  contact_id :: "string option"
  contact_fields :: "(string \<times> string) list"

text \<open>
  \<open>data?.contacts || []\<close> and \<open>data?.searchAfter\<close>: a response without data is the page
  with no contacts and no cursor.
\<close>

record contacts_data =
  contacts :: "contact list"
  searchAfter :: "cursor option"

record opportunity =
  opportunity_id :: "string option"
  lastStatusChangeAt :: stamp
  lastStageChangeAt :: stamp
  opportunity_fields :: "(string \<times> string) list"

record meta =
  nextPageUrl :: "string option"
  nextPage :: "int option"
  currentPage :: "int option"
  meta_startAfter :: "int option"
  meta_startAfterId :: "string option"

record opportunities_data =
  opportunities :: "opportunity list"
  meta :: "meta option"

record search_params =
  pipeline_stage_id :: "string option"
  startAfterId :: "string option"
  startAfter :: "int option"

record 's client =
  searchContacts :: "cursor option \<Rightarrow> 's \<Rightarrow> contacts_data reply \<times> 's"
  searchOpportunities :: "search_params \<Rightarrow> 's \<Rightarrow> opportunities_data reply \<times> 's"
  searchConversations :: "string \<Rightarrow> 's \<Rightarrow> stamp list reply \<times> 's"
  getContactAppointments :: "string \<Rightarrow> 's \<Rightarrow> stamp list reply \<times> 's"
  getContactNotes :: "string \<Rightarrow> 's \<Rightarrow> stamp list reply \<times> 's"
  getContactTasks :: "string \<Rightarrow> 's \<Rightarrow> stamp list reply \<times> 's"

subsection \<open>checkContactActivity\<close>

text \<open>
  The four \<open>for\<close> loops of \<open>checkContactActivity\<close> have the same body: a record with a
  date sets \<open>hasRecentActivity\<close> when the date is not before \<open>startDate\<close>, and replaces
  \<open>lastActivityDate\<close> when that is still undefined or the date is later. The pair is
  (\<open>hasRecentActivity\<close>, \<open>lastActivityDate\<close>).
\<close>

type_synonym activity = "bool \<times> date option"

text \<open>\<open>if (!lastActivityDate || d > lastActivityDate) lastActivityDate = d\<close>\<close>

fun later :: "date \<Rightarrow> date option \<Rightarrow> date option" where
  "later d None = Some d"
| "later d (Some l) = (if date_gt d l then Some d else Some l)"

fun scan :: "date \<Rightarrow> stamp list \<Rightarrow> activity \<Rightarrow> activity" where
  "scan startDate [] a = a"
| "scan startDate (None # xs) a = scan startDate xs a"
| "scan startDate (Some d # xs) (hasRecent, lastSeen) =
     scan startDate xs
       (if date_ge d startDate then True else hasRecent, later d lastSeen)"

text \<open>\<open>if (response.success && response.data) for (...)\<close>: any other response is passed over.\<close>

fun absorb :: "date \<Rightarrow> stamp list reply \<Rightarrow> activity \<Rightarrow> activity" where
  "absorb startDate (Success xs) a = scan startDate xs a"
| "absorb startDate _ a = a"

record check_result =
  inactive :: bool
  lastActivityDate :: "date option"

text \<open>
  The end of \<open>checkContactActivity\<close>, after the \<open>try\<close> block. The first version logs
  \<open>result.lastActivityDate?.toISOString() || 'never'\<close> before it returns, which throws
  when the date is invalid; the second version returns at once.
\<close>

fun conclude :: "variant \<Rightarrow> activity \<Rightarrow> string + check_result" where
  "conclude Plain (h, l) = Inr \<lparr>inactive = \<not> h, lastActivityDate = l\<rparr>"
| "conclude Logging (h, None) = Inr \<lparr>inactive = \<not> h, lastActivityDate = None\<rparr>"
| "conclude Logging (h, Some d) =
     (case toISOString d of
        Inl e \<Rightarrow> Inl e
      | Inr _ \<Rightarrow> Inr \<lparr>inactive = \<not> h, lastActivityDate = Some d\<rparr>)"

datatype source = Conversations | Appointments | Notes | Tasks

text \<open>
  The first statement of the first version logs \<open>startDate.toISOString()\<close>, which throws
  when \<open>startDate\<close> is invalid; the second version has no such statement.
\<close>

fun entryLog :: "variant \<Rightarrow> date \<Rightarrow> string option" where
  "entryLog Plain startDate = None"
| "entryLog Logging startDate =
     (case toISOString startDate of Inl e \<Rightarrow> Some e | Inr _ \<Rightarrow> None)"

text \<open>
  The result is what the call returns or throws (\<open>Inl\<close> the message), the sources it
  fetched, in order, and the state of the world afterwards. A rejected fetch leaves the
  \<open>try\<close> block: the sources after it are not fetched.
\<close>

definition checkContactActivity ::
  "variant \<Rightarrow> 's client \<Rightarrow> string \<Rightarrow> date \<Rightarrow> 's \<Rightarrow> (string + check_result) \<times> source list \<times> 's" where
  "checkContactActivity v cl contactId startDate s0 =
     (case entryLog v startDate of
        Some e \<Rightarrow> (Inl e, [], s0)
      | None \<Rightarrow>
     (let a0 = (False, None);
          (conversationsResponse, s1) = searchConversations cl contactId s0
      in case conversationsResponse of
           Rejected e \<Rightarrow> (conclude v a0, [Conversations], s1)
         | _ \<Rightarrow>
          (let a1 = absorb startDate conversationsResponse a0
           in if fst a1 then (conclude v a1, [Conversations], s1)
              else
               (let (appointmentsResponse, s2) = getContactAppointments cl contactId s1
                in case appointmentsResponse of
                     Rejected e \<Rightarrow> (conclude v a1, [Conversations, Appointments], s2)
                   | _ \<Rightarrow>
                    (let a2 = absorb startDate appointmentsResponse a1
                     in if fst a2
                        then (conclude v a2, [Conversations, Appointments], s2)
                        else
                         (let (notesResponse, s3) = getContactNotes cl contactId s2
                          in case notesResponse of
                               Rejected e \<Rightarrow>
                                 (conclude v a2, [Conversations, Appointments, Notes], s3)
                             | _ \<Rightarrow>
                              (let a3 = absorb startDate notesResponse a2
                               in if fst a3
                                  then (conclude v a3, [Conversations, Appointments, Notes], s3)
                                  else
                                   (let (tasksResponse, s4) = getContactTasks cl contactId s3
                                    in case tasksResponse of
                                         Rejected e \<Rightarrow>
                                           (conclude v a3,
                                            [Conversations, Appointments, Notes, Tasks], s4)
                                       | _ \<Rightarrow>
                                           (conclude v (absorb startDate tasksResponse a3),
                                            [Conversations, Appointments, Notes, Tasks],
                                            s4)))))))))"

subsection \<open>Pagination of contacts\<close>

text \<open>\<open>message || fallback\<close>: the fallback replaces a message that is absent or empty.\<close>

fun orElse :: "string option \<Rightarrow> string \<Rightarrow> string" where
  "orElse None fallback = fallback"
| "orElse (Some m) fallback = (if m = [] then fallback else m)"

text \<open>
  What the pagination loop leaves behind: either it threw (the message of the error), or
  it ended with the entities accumulated and the advisories pushed on \<open>errors\<close>. The
  loops also return the number of pages they fetched (\<open>pageCount\<close>, which only the first
  version keeps, for its log) and the state of the world.
\<close>

datatype 'e fetched = Thrown string | Fetched "'e list" "string list"

text \<open>
  The \<open>while (true)\<close> loop of \<open>detectContactsInactivity\<close>, with its local variables as
  arguments: \<open>after\<close> is \<open>searchAfter\<close> and \<open>acc\<close> is \<open>contacts\<close> (the names of the fields of
  the response are taken). Each iteration that goes on has added at least 100 contacts and
  has found at most 50000, which bounds the number of iterations.
\<close>

function fetchAllContacts ::
  "'s client \<Rightarrow> cursor option \<Rightarrow> contact list \<Rightarrow> nat \<Rightarrow> 's \<Rightarrow> contact fetched \<times> nat \<times> 's" where
  "fetchAllContacts cl after acc pageCount s =
     (case searchContacts cl after s of
        (Rejected e, s1) \<Rightarrow> (Thrown e, pageCount + 1, s1)
      | (Failure m, s1) \<Rightarrow> (Thrown (orElse m ''Failed to search contacts''), pageCount + 1, s1)
      | (Success d, s1) \<Rightarrow>
          (let batchContacts = contacts d;
               total = acc @ batchContacts
           in if length batchContacts < 100 \<or> searchAfter d = None
              then (Fetched total [], pageCount + 1, s1)
              else if 50000 < length total
              then (Fetched total [''Too many contacts, stopping at 50000''], pageCount + 1, s1)
              else fetchAllContacts cl (searchAfter d) total (pageCount + 1) s1))"
  by pat_completeness auto
termination
  by (relation "measure (\<lambda>(cl, after, acc, pageCount, s). 50001 - length acc)") auto

declare fetchAllContacts.simps [simp del]

subsection \<open>Checking the contacts\<close>

text \<open>
  A flagged entity is the entity (\<open>...contact\<close>, \<open>...opportunity\<close>) with \<open>daysInactive\<close> and
  \<open>lastActivityDate\<close>, the ISO text or undefined. The tally holds the three accumulators of
  a detector: \<open>inactiveContacts\<close> or \<open>inactiveOpportunities\<close>, \<open>totalContactsChecked\<close> or
  \<open>totalOpportunitiesChecked\<close>, and \<open>errors\<close>. The report is the returned object.
\<close>

record 'e flagged =
  entity :: 'e
  daysInactive :: int
  lastActivityDateISO :: "int option"

record 'e tally =
  inactiveEntities :: "'e flagged list"
  totalChecked :: nat
  errors :: "string list"

record 'e report = "'e tally" +
  inactiveCount :: nat
  inactivityThresholdDays :: int

definition errorChecking :: "string \<Rightarrow> string \<Rightarrow> string \<Rightarrow> string" where
  "errorChecking kind ident m = ''Error checking '' @ kind @ '' '' @ ident @ '': '' @ m"

definition flag :: "'e \<Rightarrow> int \<Rightarrow> int option \<Rightarrow> 'e tally \<Rightarrow> 'e tally" where
  "flag e inactivityDays isoText t =
     t\<lparr>inactiveEntities := inactiveEntities t @
         [\<lparr>entity = e, daysInactive = inactivityDays, lastActivityDateISO = isoText\<rparr>]\<rparr>"

definition complain :: "string \<Rightarrow> 'e tally \<Rightarrow> 'e tally" where
  "complain m t = t\<lparr>errors := errors t @ [m]\<rparr>"

text \<open>
  The body of the inner \<open>try\<close> of \<open>for (const contact of contacts)\<close>. It throws (\<open>Inl\<close>
  the message) when \<open>checkContactActivity\<close> does, or when
  \<open>isInactive.lastActivityDate?.toISOString()\<close> does, which is evaluated for an inactive
  contact only. Otherwise the contact is active (\<open>Inr None\<close>) or inactive, with the text of
  its last activity date if it has one.
\<close>

definition resolveContact ::
  "variant \<Rightarrow> 's client \<Rightarrow> string \<Rightarrow> date \<Rightarrow> 's \<Rightarrow> (string + int option option) \<times> 's" where
  "resolveContact v cl i startDate s =
     (case checkContactActivity v cl i startDate s of
        (Inl m, _, s1) \<Rightarrow> (Inl m, s1)
      | (Inr isInactive, _, s1) \<Rightarrow>
          if inactive isInactive
          then (case lastActivityDate isInactive of
                  None \<Rightarrow> (Inr (Some None), s1)
                | Some d \<Rightarrow>
                   (case toISOString d of
                      Inl m \<Rightarrow> (Inl m, s1)
                    | Inr text \<Rightarrow> (Inr (Some (Some text)), s1)))
          else (Inr None, s1))"

text \<open>
  The body of the loop: a contact without an id is passed over before the counter moves;
  the \<open>catch\<close> of the inner \<open>try\<close> pushes one message and the loop goes on.
\<close>

definition checkContact ::
  "variant \<Rightarrow> 's client \<Rightarrow> date \<Rightarrow> int \<Rightarrow> contact \<Rightarrow> contact tally \<Rightarrow> 's \<Rightarrow> contact tally \<times> 's" where
  "checkContact v cl startDate inactivityDays c t s =
     (case contact_id c of
        None \<Rightarrow> (t, s)
      | Some i \<Rightarrow>
          if i = [] then (t, s)
          else
           (let t1 = t\<lparr>totalChecked := totalChecked t + 1\<rparr>
            in case resolveContact v cl i startDate s of
                 (Inl m, s1) \<Rightarrow> (complain (errorChecking ''contact'' i m) t1, s1)
               | (Inr None, s1) \<Rightarrow> (t1, s1)
               | (Inr (Some lastActivityText), s1) \<Rightarrow>
                   (flag c inactivityDays lastActivityText t1, s1)))"

fun checkContacts ::
  "variant \<Rightarrow> 's client \<Rightarrow> date \<Rightarrow> int \<Rightarrow> contact list \<Rightarrow> contact tally \<Rightarrow> 's \<Rightarrow> contact tally \<times> 's" where
  "checkContacts v cl startDate inactivityDays [] t s = (t, s)"
| "checkContacts v cl startDate inactivityDays (c # rest) t s =
     (case checkContact v cl startDate inactivityDays c t s of
        (t1, s1) \<Rightarrow> checkContacts v cl startDate inactivityDays rest t1 s1)"

definition reportOf :: "'e tally \<Rightarrow> int \<Rightarrow> 'e report" where
  "reportOf t inactivityDays =
     \<lparr>inactiveEntities = inactiveEntities t, totalChecked = totalChecked t,
      errors = errors t, inactiveCount = length (inactiveEntities t),
      inactivityThresholdDays = inactivityDays\<rparr>"

text \<open>
  \<open>detectContactsInactivity\<close>: one \<open>try\<close> block holds the pagination and the checking loop,
  and its \<open>catch\<close> pushes one message. \<open>now\<close> is the instant \<open>new Date()\<close> reads and \<open>zone\<close>
  the calendar of the runtime.
\<close>

definition detectContactsInactivity ::
  "variant \<Rightarrow> 's client \<Rightarrow> calendar \<Rightarrow> int \<Rightarrow> int \<Rightarrow> 's \<Rightarrow> contact report \<times> 's" where
  "detectContactsInactivity v cl zone now inactivityDays s0 =
     (let startDate = startDateOf zone now inactivityDays
      in case fetchAllContacts cl None [] 0 s0 of
           (Thrown m, pageCount, s1) \<Rightarrow>
             (reportOf \<lparr>inactiveEntities = [], totalChecked = 0,
                        errors = [''Error fetching contacts: '' @ m]\<rparr> inactivityDays, s1)
         | (Fetched found advisories, pageCount, s1) \<Rightarrow>
             (case checkContacts v cl startDate inactivityDays found
                     \<lparr>inactiveEntities = [], totalChecked = 0, errors = advisories\<rparr> s1 of
                (t, s2) \<Rightarrow> (reportOf t inactivityDays, s2)))"

subsection \<open>Opportunities\<close>

text \<open>
  The request of a page. The first version sends the stage filter and the two markers when
  they are truthy (\<open>startAfter\<close> is then the text of a number other than 0); the second
  version has no stage filter and sends \<open>start_after\<close> whenever it is defined.
\<close>

fun whenTruthy :: "string option \<Rightarrow> string option" where
  "whenTruthy None = None"
| "whenTruthy (Some x) = (if x = [] then None else Some x)"

fun searchParamsOf :: "variant \<Rightarrow> string option \<Rightarrow> int option \<Rightarrow> string \<Rightarrow> search_params" where
  "searchParamsOf Logging pipelineStageId after afterId =
     \<lparr>pipeline_stage_id = whenTruthy pipelineStageId,
      startAfterId = whenTruthy (Some afterId), startAfter = after\<rparr>"
| "searchParamsOf Plain pipelineStageId after afterId =
     \<lparr>pipeline_stage_id = None,
      startAfterId = whenTruthy (Some afterId), startAfter = after\<rparr>"

text \<open>
  First version: \<open>!!meta?.nextPageUrl\<close>. Second version:
  \<open>!!meta?.nextPageUrl || (meta?.nextPage && meta.currentPage && meta.nextPage > meta.currentPage)\<close>.
\<close>

fun numbersSayMore :: "int option \<Rightarrow> int option \<Rightarrow> bool" where
  "numbersSayMore (Some n) (Some c) = (n \<noteq> 0 \<and> c \<noteq> 0 \<and> c < n)"
| "numbersSayMore _ _ = False"

fun hasMorePages :: "variant \<Rightarrow> meta option \<Rightarrow> bool" where
  "hasMorePages v None = False"
| "hasMorePages Logging (Some m) = truthy (nextPageUrl m)"
| "hasMorePages Plain (Some m) =
     (if truthy (nextPageUrl m) then True else numbersSayMore (nextPage m) (currentPage m))"

text \<open>
  First version: \<open>startAfter = meta?.startAfter ? String(meta.startAfter) : undefined\<close>;
  second version: \<open>startAfter = meta?.startAfter\<close>. Both:
  \<open>startAfterId = meta?.startAfterId || ''\<close>.
\<close>

fun nextStartAfter :: "variant \<Rightarrow> meta option \<Rightarrow> int option" where
  "nextStartAfter v None = None"
| "nextStartAfter Plain (Some m) = meta_startAfter m"
| "nextStartAfter Logging (Some m) =
     (case meta_startAfter m of
        None \<Rightarrow> None
      | Some n \<Rightarrow> if n = 0 then None else Some n)"

fun nextStartAfterId :: "meta option \<Rightarrow> string" where
  "nextStartAfterId None = []"
| "nextStartAfterId (Some m) = orElse (meta_startAfterId m) []"

text \<open>
  This loop has no bound of its own when the backend keeps announcing a next page without
  delivering opportunities, so its result is optional: \<open>None\<close> is a run that never ends.
\<close>

partial_function (option) fetchAllOpportunities ::
  "variant \<Rightarrow> 's client \<Rightarrow> string option \<Rightarrow> int option \<Rightarrow> string \<Rightarrow> opportunity list \<Rightarrow> nat \<Rightarrow> 's
     \<Rightarrow> (opportunity fetched \<times> nat \<times> 's) option" where
  "fetchAllOpportunities v cl pipelineStageId after afterId acc pageCount s =
     (case searchOpportunities cl (searchParamsOf v pipelineStageId after afterId) s of
        (Rejected e, s1) \<Rightarrow> Some (Thrown e, pageCount + 1, s1)
      | (Failure m, s1) \<Rightarrow>
          Some (Thrown (orElse m ''Failed to search opportunities''), pageCount + 1, s1)
      | (Success d, s1) \<Rightarrow>
          (let total = acc @ opportunities d
           in if \<not> hasMorePages v (meta d)
              then Some (Fetched total [], pageCount + 1, s1)
              else if 10000 < length total
              then Some (Fetched total [''Too many opportunities, stopping at 10000''],
                         pageCount + 1, s1)
              else fetchAllOpportunities v cl pipelineStageId
                     (nextStartAfter v (meta d)) (nextStartAfterId (meta d))
                     total (pageCount + 1) s1))"

text \<open>
  The body of \<open>for (const opportunity of opportunities)\<close>, the same in both versions:
  the last activity is read off the two fields of the opportunity, without any fetch.
\<close>

definition lastActivityOf :: "opportunity \<Rightarrow> date option" where
  "lastActivityOf opp =
     (let l1 = (case lastStatusChangeAt opp of
                  None \<Rightarrow> None
                | Some statusDate \<Rightarrow> later statusDate None)
      in case lastStageChangeAt opp of
           None \<Rightarrow> l1
         | Some stageDate \<Rightarrow> later stageDate l1)"

text \<open>\<open>!lastActivityDate || lastActivityDate < startDate\<close>\<close>

fun isInactive :: "date \<Rightarrow> date option \<Rightarrow> bool" where
  "isInactive startDate None = True"
| "isInactive startDate (Some l) = date_lt l startDate"

definition checkOpportunity ::
  "date \<Rightarrow> int \<Rightarrow> opportunity \<Rightarrow> opportunity tally \<Rightarrow> opportunity tally" where
  "checkOpportunity startDate inactivityDays opp t =
     (case opportunity_id opp of
        None \<Rightarrow> t
      | Some i \<Rightarrow>
          if i = [] then t
          else
           (let t1 = t\<lparr>totalChecked := totalChecked t + 1\<rparr>;
                l = lastActivityOf opp
            in if isInactive startDate l
               then (case l of
                       None \<Rightarrow> flag opp inactivityDays None t1
                     | Some d \<Rightarrow>
                        (case toISOString d of
                           Inl m \<Rightarrow> complain (errorChecking ''opportunity'' i m) t1
                         | Inr text \<Rightarrow> flag opp inactivityDays (Some text) t1))
               else t1))"

fun checkOpportunities ::
  "date \<Rightarrow> int \<Rightarrow> opportunity list \<Rightarrow> opportunity tally \<Rightarrow> opportunity tally" where
  "checkOpportunities startDate inactivityDays [] t = t"
| "checkOpportunities startDate inactivityDays (opp # rest) t =
     checkOpportunities startDate inactivityDays rest
       (checkOpportunity startDate inactivityDays opp t)"

definition detectOpportunitiesInactivity ::
  "variant \<Rightarrow> 's client \<Rightarrow> calendar \<Rightarrow> int \<Rightarrow> int \<Rightarrow> string option \<Rightarrow> 's
     \<Rightarrow> (opportunity report \<times> 's) option" where
  "detectOpportunitiesInactivity v cl zone now inactivityDays pipelineStageId s0 =
     (let startDate = startDateOf zone now inactivityDays
      in case fetchAllOpportunities v cl pipelineStageId None [] [] 0 s0 of
           None \<Rightarrow> None
         | Some (Thrown m, pageCount, s1) \<Rightarrow>
             Some (reportOf \<lparr>inactiveEntities = [], totalChecked = 0,
                     errors = [''Error fetching opportunities: '' @ m]\<rparr> inactivityDays, s1)
         | Some (Fetched found advisories, pageCount, s1) \<Rightarrow>
             Some (reportOf
                     (checkOpportunities startDate inactivityDays found
                        \<lparr>inactiveEntities = [], totalChecked = 0, errors = advisories\<rparr>)
                     inactivityDays, s1))"

subsection \<open>Scripted clients\<close>

text \<open>
  A client for concrete runs: the state counts the page fetches made so far, the answer
  to a page fetch depends on that count alone, and the answer of a signal source on the
  contact id alone.
\<close>

definition scripted ::
  "(nat \<Rightarrow> contacts_data reply) \<Rightarrow> (nat \<Rightarrow> opportunities_data reply) \<Rightarrow>
   (string \<Rightarrow> stamp list reply) \<Rightarrow> (string \<Rightarrow> stamp list reply) \<Rightarrow>
   (string \<Rightarrow> stamp list reply) \<Rightarrow> (string \<Rightarrow> stamp list reply) \<Rightarrow> nat client" where
  "scripted contactPages opportunityPages conversations appointments notes tasks =
     \<lparr>searchContacts = (\<lambda>after n. (contactPages n, Suc n)),
      searchOpportunities = (\<lambda>params n. (opportunityPages n, Suc n)),
      searchConversations = (\<lambda>contactId n. (conversations contactId, n)),
      getContactAppointments = (\<lambda>contactId n. (appointments contactId, n)),
      getContactNotes = (\<lambda>contactId n. (notes contactId, n)),
      getContactTasks = (\<lambda>contactId n. (tasks contactId, n))\<rparr>"

definition nothing :: "string \<Rightarrow> stamp list reply" where
  "nothing contactId = Success []"

definition noContacts :: "nat \<Rightarrow> contacts_data reply" where
  "noContacts n = Success \<lparr>contacts = [], searchAfter = None\<rparr>"

definition noOpportunities :: "nat \<Rightarrow> opportunities_data reply" where
  "noOpportunities n = Success \<lparr>opportunities = [], meta = None\<rparr>"

definition person :: "string \<Rightarrow> contact" where
  "person i = \<lparr>contact_id = Some i, contact_fields = []\<rparr>"

subsection \<open>Signals\<close>

text \<open>
  The vocabulary of the statements below. The records that reach the resolver are those
  of a successful response; their signals are the time values of the dates that parse;
  the latest signal is the greatest of them. The replies of the four sources are taken in
  the order of the code, each in the state the previous fetch left.
\<close>

fun stampsOf :: "stamp list reply \<Rightarrow> stamp list" where
  "stampsOf (Success xs) = xs"
| "stampsOf _ = []"

fun timesOf :: "stamp list \<Rightarrow> int list" where
  "timesOf [] = []"
| "timesOf (Some (Time t) # xs) = t # timesOf xs"
| "timesOf (_ # xs) = timesOf xs"

fun latest :: "int list \<Rightarrow> int option" where
  "latest [] = None"
| "latest (t # ts) = (case latest ts of None \<Rightarrow> Some t | Some m \<Rightarrow> Some (max t m))"

fun isRejected :: "'a reply \<Rightarrow> bool" where
  "isRejected (Rejected e) = True"
| "isRejected _ = False"

definition replies :: "'s client \<Rightarrow> string \<Rightarrow> 's \<Rightarrow> stamp list reply list" where
  "replies cl contactId s0 =
     (case searchConversations cl contactId s0 of
        (r1, s1) \<Rightarrow>
          (case getContactAppointments cl contactId s1 of
             (r2, s2) \<Rightarrow>
               (case getContactNotes cl contactId s2 of
                  (r3, s3) \<Rightarrow>
                    (case getContactTasks cl contactId s3 of
                       (r4, s4) \<Rightarrow> [r1, r2, r3, r4]))))"

definition signals :: "'s client \<Rightarrow> string \<Rightarrow> 's \<Rightarrow> int list" where
  "signals cl contactId s0 = concat (map (\<lambda>r. timesOf (stampsOf r)) (replies cl contactId s0))"

definition parses :: "stamp list \<Rightarrow> bool" where
  "parses xs = (Some Invalid \<notin> set xs)"

text \<open>The dates seen so far, as a list of at most one time value.\<close>

fun seen :: "int option \<Rightarrow> int list" where
  "seen None = []"
| "seen (Some m) = [m]"

subsection \<open>Backends for concrete runs\<close>

definition endlessContacts :: "nat \<Rightarrow> contacts_data reply" where
  "endlessContacts n =
     Success \<lparr>contacts = replicate 100 (person ''c''), searchAfter = Some (int n, ''c'')\<rparr>"


definition secondPageFails :: "nat \<Rightarrow> contacts_data reply" where
  "secondPageFails n =
     (if n = 0
      then Success \<lparr>contacts = replicate 100 (person ''c''), searchAfter = Some (0, ''c'')\<rparr>
      else Failure (Some ''boom''))"

definition someOpportunity :: opportunity where
  "someOpportunity = \<lparr>opportunity_id = Some ''o'', lastStatusChangeAt = None,
     lastStageChangeAt = None, opportunity_fields = []\<rparr>"

definition endlessOpportunities :: "nat \<Rightarrow> opportunities_data reply" where
  "endlessOpportunities n =
     Success \<lparr>opportunities = replicate 100 someOpportunity,
       meta = Some \<lparr>nextPageUrl = Some ''next'', nextPage = None, currentPage = None,
                    meta_startAfter = Some (int n + 1), meta_startAfterId = Some ''o''\<rparr>\<rparr>"

definition secondOpportunityPageFails :: "nat \<Rightarrow> opportunities_data reply" where
  "secondOpportunityPageFails n =
     (if n = 0 then endlessOpportunities 0 else Rejected ''timeout'')"

definition numbersOnly :: "nat \<Rightarrow> opportunities_data reply" where
  "numbersOnly n =
     (if n = 0
      then Success \<lparr>opportunities = [someOpportunity],
             meta = Some \<lparr>nextPageUrl = None, nextPage = Some 2, currentPage = Some 1,
                          meta_startAfter = None, meta_startAfterId = None\<rparr>\<rparr>
      else Success \<lparr>opportunities = [], meta = None\<rparr>)"



definition onePage :: "contact list \<Rightarrow> nat \<Rightarrow> contacts_data reply" where
  "onePage cs n = Success \<lparr>contacts = cs, searchAfter = None\<rparr>"

definition garbledThenRecent :: "int \<Rightarrow> string \<Rightarrow> stamp list reply" where
  "garbledThenRecent now contactId = Success [Some Invalid, Some (Time now)]"

text \<open>A client none of whose signal sources ever delivers a date that does not parse.\<close>

definition wellDated :: "'s client \<Rightarrow> bool" where
  "wellDated cl =
     (\<forall>i s. parses (stampsOf (fst (searchConversations cl i s))) \<and>
            parses (stampsOf (fst (getContactAppointments cl i s))) \<and>
            parses (stampsOf (fst (getContactNotes cl i s))) \<and>
            parses (stampsOf (fst (getContactTasks cl i s))))"


subsection \<open>Runs of the pagination loops\<close>

text \<open>
  The message a failed fetch is thrown with: the rejection itself, or
  \<open>response.error?.message || fallback\<close> for a response that is not a success.
\<close>

fun failureText :: "string \<Rightarrow> 'a reply \<Rightarrow> string option" where
  "failureText fallback (Rejected e) = Some e"
| "failureText fallback (Failure m) = Some (orElse m fallback)"
| "failureText fallback (Success d) = None"

text \<open>
  The states in which the \<open>while (true)\<close> loops stand at the head of an iteration: at the
  start, and after every page that made the loop go on. The arguments are the initial
  state of the world, then the cursor, the entities accumulated, the pages fetched and
  the state of the world.
\<close>

inductive contactsLoopAt ::
  "'s client \<Rightarrow> 's \<Rightarrow> cursor option \<Rightarrow> contact list \<Rightarrow> nat \<Rightarrow> 's \<Rightarrow> bool"
  for cl :: "'s client" and s0 :: 's where
  start: "contactsLoopAt cl s0 None [] 0 s0"
| page: "contactsLoopAt cl s0 after acc pageCount s \<Longrightarrow>
         searchContacts cl after s = (Success d, s1) \<Longrightarrow>
         100 \<le> length (contacts d) \<Longrightarrow> searchAfter d \<noteq> None \<Longrightarrow>
         length (acc @ contacts d) \<le> 50000 \<Longrightarrow>
         contactsLoopAt cl s0 (searchAfter d) (acc @ contacts d) (pageCount + 1) s1"

inductive opportunitiesLoopAt ::
  "variant \<Rightarrow> 's client \<Rightarrow> string option \<Rightarrow> 's \<Rightarrow> int option \<Rightarrow> string \<Rightarrow> opportunity list \<Rightarrow> nat \<Rightarrow> 's
     \<Rightarrow> bool"
  for v :: variant and cl :: "'s client" and stage :: "string option" and s0 :: 's where
  start: "opportunitiesLoopAt v cl stage s0 None [] [] 0 s0"
| page: "opportunitiesLoopAt v cl stage s0 after afterId acc pageCount s \<Longrightarrow>
         searchOpportunities cl (searchParamsOf v stage after afterId) s = (Success d, s1) \<Longrightarrow>
         hasMorePages v (meta d) \<Longrightarrow> length (acc @ opportunities d) \<le> 10000 \<Longrightarrow>
         opportunitiesLoopAt v cl stage s0 (nextStartAfter v (meta d)) (nextStartAfterId (meta d))
           (acc @ opportunities d) (pageCount + 1) s1"


text \<open>
  Two opportunities with one stale date and one text that does not parse, in either order.
\<close>

definition garbledStatus :: opportunity where
  "garbledStatus = \<lparr>opportunity_id = Some ''o1'', lastStatusChangeAt = Some Invalid,
     lastStageChangeAt = Some (Time 3), opportunity_fields = []\<rparr>"

definition garbledStage :: opportunity where
  "garbledStage = \<lparr>opportunity_id = Some ''o1'', lastStatusChangeAt = Some (Time 3),
     lastStageChangeAt = Some Invalid, opportunity_fields = []\<rparr>"

section \<open>Properties\<close>

subsection \<open>Selectors of a scripted client\<close>

lemma scripted_sel:
  "searchContacts (scripted cp op c1 c2 c3 c4) = (\<lambda>after n. (cp n, Suc n))"
  "searchOpportunities (scripted cp op c1 c2 c3 c4) = (\<lambda>params n. (op n, Suc n))"
  "searchConversations (scripted cp op c1 c2 c3 c4) = (\<lambda>contactId n. (c1 contactId, n))"
  "getContactAppointments (scripted cp op c1 c2 c3 c4) = (\<lambda>contactId n. (c2 contactId, n))"
  "getContactNotes (scripted cp op c1 c2 c3 c4) = (\<lambda>contactId n. (c3 contactId, n))"
  "getContactTasks (scripted cp op c1 c2 c3 c4) = (\<lambda>contactId n. (c4 contactId, n))"
  by (simp_all add: scripted_def)

subsection \<open>The loops over the records of a source\<close>

lemma entryLog_valid [simp]: "entryLog v (Time t) = None"
  by (cases v) simp_all

lemma scan_fst: "fst (scan (Time st) xs a) = (fst a \<or> list_ex (\<lambda>t. st \<le> t) (timesOf xs))"
proof (induction xs arbitrary: a)
  case Nil then show ?case by simp
next
  case (Cons x xs)
  obtain h l where a: "a = (h, l)" by (cases a)
  show ?case
  proof (cases x)
    case None then show ?thesis using Cons.IH by simp
  next
    case (Some d)
    then show ?thesis using Cons.IH a by (cases d) auto
  qed
qed

lemma latest_None: "(latest ts = None) = (ts = [])"
  by (cases ts) (auto split: option.splits)

lemma latest_ex: "latest ts = Some m \<Longrightarrow> list_ex (\<lambda>t. st \<le> t) ts = (st \<le> m)"
proof (induction ts arbitrary: m)
  case Nil then show ?case by simp
next
  case (Cons t ts)
  show ?case
  proof (cases "latest ts")
    case None
    then have "ts = []" by (simp add: latest_None)
    with Cons.prems show ?thesis by simp
  next
    case (Some k)
    with Cons.prems have m: "m = max t k" by simp
    from Cons.IH [OF Some] m show ?thesis by (auto simp: max_def)
  qed
qed

lemma latest_snoc: "latest (ts @ [m]) = Some (case latest ts of None \<Rightarrow> m | Some k \<Rightarrow> max k m)"
  by (induction ts) (auto split: option.splits simp: max_def)


lemma scan_snd:
  "parses xs \<Longrightarrow>
   snd (scan sd xs (h, map_option Time lo)) = map_option Time (latest (seen lo @ timesOf xs))"
proof (induction xs arbitrary: h lo)
  case Nil then show ?case by (cases lo) simp_all
next
  case (Cons x xs)
  from Cons.prems have p: "parses xs" and x: "x \<noteq> Some Invalid" by (auto simp: parses_def)
  show ?case
  proof (cases x)
    case None then show ?thesis using Cons.IH [OF p] by simp
  next
    case (Some d)
    with x obtain t where d: "d = Time t" by (cases d) auto
    have l: "later (Time t) (map_option Time lo) = map_option Time (Some (case lo of None \<Rightarrow> t | Some m \<Rightarrow> max m t))"
      by (cases lo) (auto simp: max_def)
    show ?thesis
      using Cons.IH [OF p, of _ "Some (case lo of None \<Rightarrow> t | Some m \<Rightarrow> max m t)"]
      unfolding Some d scan.simps l
      by (cases lo) (auto split: option.splits simp: max_def)
  qed
qed

lemma absorb_fst:
  "fst (absorb (Time st) r a) = (fst a \<or> list_ex (\<lambda>t. st \<le> t) (timesOf (stampsOf r)))"
  by (cases r) (simp_all add: scan_fst)


lemma valid_date_option: "l \<noteq> Some Invalid \<Longrightarrow> \<exists>lo. l = map_option Time lo"
proof (cases l)
  case None then show ?thesis by simp
next
  case (Some d)
  assume "l \<noteq> Some Invalid"
  with Some obtain t where "d = Time t" by (cases d) auto
  with Some have "l = map_option Time (Some t)" by simp
  then show ?thesis by blast
qed

lemma scan_snd_valid:
  assumes "parses xs" and "snd a \<noteq> Some Invalid"
  shows "snd (scan sd xs a) \<noteq> Some Invalid"
proof -
  obtain lo where "snd a = map_option Time lo" using valid_date_option [OF assms(2)] by blast
  then have "a = (fst a, map_option Time lo)" by (cases a) simp
  then have "snd (scan sd xs a) = map_option Time (latest (seen lo @ timesOf xs))"
    using scan_snd [OF assms(1), of sd "fst a" lo] by simp
  then show ?thesis by (cases "latest (seen lo @ timesOf xs)") simp_all
qed

lemma absorb_snd_valid:
  "parses (stampsOf r) \<Longrightarrow> snd a \<noteq> Some Invalid \<Longrightarrow> snd (absorb sd r a) \<noteq> Some Invalid"
  by (cases r) (simp_all add: scan_snd_valid)

lemma conclude_valid:
  "snd a \<noteq> Some Invalid \<Longrightarrow> conclude v a = Inr \<lparr>inactive = \<not> fst a, lastActivityDate = snd a\<rparr>"
proof -
  assume h: "snd a \<noteq> Some Invalid"
  obtain b l where a: "a = (b, l)" by (cases a)
  show ?thesis
  proof (cases l)
    case None with a show ?thesis by (cases v) simp_all
  next
    case (Some d)
    with h a obtain t where "d = Time t" by (cases d) auto
    with Some a show ?thesis by (cases v) simp_all
  qed
qed

lemma case_not_rejected:
  "\<not> isRejected r \<Longrightarrow> (case r of Rejected e \<Rightarrow> f e | Failure m \<Rightarrow> g | Success x \<Rightarrow> g) = g"
  by (cases r) simp_all

lemma check_answered:
  assumes ok: "list_all (\<lambda>r. \<not> isRejected r \<and> parses (stampsOf r)) (replies cl contactId s0)"
  shows "\<exists>l. fst (checkContactActivity v cl contactId (Time st) s0) =
           Inr \<lparr>inactive = \<not> list_ex (\<lambda>t. st \<le> t) (signals cl contactId s0),
                lastActivityDate = l\<rparr>"
proof -
  obtain r1 s1 where f1: "searchConversations cl contactId s0 = (r1, s1)" by fastforce
  obtain r2 s2 where f2: "getContactAppointments cl contactId s1 = (r2, s2)" by fastforce
  obtain r3 s3 where f3: "getContactNotes cl contactId s2 = (r3, s3)" by fastforce
  obtain r4 s4 where f4: "getContactTasks cl contactId s3 = (r4, s4)" by fastforce
  have rs: "replies cl contactId s0 = [r1, r2, r3, r4]"
    by (simp add: replies_def f1 f2 f3 f4)
  from ok rs have n: "\<not> isRejected r1" "\<not> isRejected r2" "\<not> isRejected r3" "\<not> isRejected r4"
    and p: "parses (stampsOf r1)" "parses (stampsOf r2)" "parses (stampsOf r3)" "parses (stampsOf r4)"
    by simp_all
  define a1 where "a1 = absorb (Time st) r1 (False, None)"
  define a2 where "a2 = absorb (Time st) r2 a1"
  define a3 where "a3 = absorb (Time st) r3 a2"
  define a4 where "a4 = absorb (Time st) r4 a3"
  have v1: "snd a1 \<noteq> Some Invalid" unfolding a1_def using p(1) by (simp add: absorb_snd_valid)
  have v2: "snd a2 \<noteq> Some Invalid" unfolding a2_def using p(2) v1 by (simp add: absorb_snd_valid)
  have v3: "snd a3 \<noteq> Some Invalid" unfolding a3_def using p(3) v2 by (simp add: absorb_snd_valid)
  have v4: "snd a4 \<noteq> Some Invalid" unfolding a4_def using p(4) v3 by (simp add: absorb_snd_valid)
  let ?e = "\<lambda>r. list_ex (\<lambda>t. st \<le> t) (timesOf (stampsOf r))"
  have h1: "fst a1 = ?e r1" unfolding a1_def by (simp add: absorb_fst)
  have h2: "fst a2 = (fst a1 \<or> ?e r2)" unfolding a2_def by (simp add: absorb_fst)
  have h3: "fst a3 = (fst a2 \<or> ?e r3)" unfolding a3_def by (simp add: absorb_fst)
  have h4: "fst a4 = (fst a3 \<or> ?e r4)" unfolding a4_def by (simp add: absorb_fst)
  have sg: "list_ex (\<lambda>t. st \<le> t) (signals cl contactId s0) = (?e r1 \<or> ?e r2 \<or> ?e r3 \<or> ?e r4)"
    by (auto simp: signals_def rs list_ex_iff)
  have run: "fst (checkContactActivity v cl contactId (Time st) s0) =
       (if fst a1 then conclude v a1 else if fst a2 then conclude v a2
        else if fst a3 then conclude v a3 else conclude v a4)"
    unfolding checkContactActivity_def
    by (simp add: f1 f2 f3 f4 case_not_rejected [OF n(1)] case_not_rejected [OF n(2)]
        case_not_rejected [OF n(3)] case_not_rejected [OF n(4)]
        a1_def [symmetric] a2_def [symmetric] a3_def [symmetric] a4_def [symmetric])
  show ?thesis
    unfolding run sg
    using h1 h2 h3 h4 by (simp add: conclude_valid [OF v1] conclude_valid [OF v2]
        conclude_valid [OF v3] conclude_valid [OF v4])
qed

subsection \<open>The pagination loops\<close>

lemma fetchAllContacts_unfold:
  "searchContacts cl after s = (Success d, s1) \<Longrightarrow>
   fetchAllContacts cl after acc pageCount s =
     (if length (contacts d) < 100 \<or> searchAfter d = None
      then (Fetched (acc @ contacts d) [], pageCount + 1, s1)
      else if 50000 < length (acc @ contacts d)
      then (Fetched (acc @ contacts d) [''Too many contacts, stopping at 50000''], pageCount + 1, s1)
      else fetchAllContacts cl (searchAfter d) (acc @ contacts d) (pageCount + 1) s1)"
  by (subst fetchAllContacts.simps) (simp add: Let_def)

lemma fetchAllContacts_pages:
  "pageCount + 1 \<le> fst (snd (fetchAllContacts cl after acc pageCount s))"
proof (induction cl after acc pageCount s rule: fetchAllContacts.induct)
  case (1 cl after acc pageCount s)
  obtain r s1 where f: "searchContacts cl after s = (r, s1)" by fastforce
  show ?case
  proof (cases r)
    case (Rejected e)
    with f show ?thesis by (subst fetchAllContacts.simps) simp
  next
    case (Failure m)
    with f show ?thesis by (subst fetchAllContacts.simps) simp
  next
    case (Success d)
    with f have g: "searchContacts cl after s = (Success d, s1)" by simp
    show ?thesis
    proof (cases "length (contacts d) < 100 \<or> searchAfter d = None \<or> 50000 < length (acc @ contacts d)")
      case True
      then show ?thesis by (auto simp: fetchAllContacts_unfold [OF g])
    next
      case False
      then have "pageCount + 1 + 1 \<le> fst (snd (fetchAllContacts cl (searchAfter d) (acc @ contacts d) (pageCount + 1) s1))"
        using "1.IH" [OF g [symmetric] refl refl refl] by simp
      with False show ?thesis by (simp add: fetchAllContacts_unfold [OF g])
    qed
  qed
qed

lemma full_pages_run:
  assumes full: "\<And>after s. \<exists>d s1. searchContacts cl after s = (Success d, s1) \<and>
             length (contacts d) = 100 \<and> searchAfter d \<noteq> None \<and> list_all P (contacts d)"
  shows "length acc + 100 * Suc k = 50100 \<Longrightarrow> list_all P acc \<Longrightarrow>
         \<exists>found s'. fetchAllContacts cl after acc pageCount s =
            (Fetched found [''Too many contacts, stopping at 50000''], pageCount + Suc k, s') \<and>
            length found = 50100 \<and> list_all P found"
proof (induction k arbitrary: acc after pageCount s)
  case 0
  obtain d s1 where g: "searchContacts cl after s = (Success d, s1)"
    and d: "length (contacts d) = 100" "searchAfter d \<noteq> None" "list_all P (contacts d)"
    using full [of after s] by blast
  from 0 d show ?case by (simp add: fetchAllContacts_unfold [OF g])
next
  case (Suc k)
  obtain d s1 where g: "searchContacts cl after s = (Success d, s1)"
    and d: "length (contacts d) = 100" "searchAfter d \<noteq> None" "list_all P (contacts d)"
    using full [of after s] by blast
  from Suc.prems d have l: "length (acc @ contacts d) + 100 * Suc k = 50100"
    and p: "list_all P (acc @ contacts d)" by simp_all
  from Suc.IH [OF l p, of "searchAfter d" "pageCount + 1" s1] l d
  show ?case by (simp add: fetchAllContacts_unfold [OF g])
qed

lemma fetchAllOpportunities_unfold:
  "searchOpportunities cl (searchParamsOf v stage after afterId) s = (Success d, s1) \<Longrightarrow>
   fetchAllOpportunities v cl stage after afterId acc pageCount s =
     (if \<not> hasMorePages v (meta d)
      then Some (Fetched (acc @ opportunities d) [], pageCount + 1, s1)
      else if 10000 < length (acc @ opportunities d)
      then Some (Fetched (acc @ opportunities d) [''Too many opportunities, stopping at 10000''],
                 pageCount + 1, s1)
      else fetchAllOpportunities v cl stage (nextStartAfter v (meta d)) (nextStartAfterId (meta d))
             (acc @ opportunities d) (pageCount + 1) s1)"
  by (subst fetchAllOpportunities.simps) (simp add: Let_def)



lemma full_opportunity_pages_run:
  assumes full: "\<And>params s. \<exists>d s1 m. searchOpportunities cl params s = (Success d, s1) \<and>
             length (opportunities d) = 100 \<and> meta d = Some m \<and> truthy (nextPageUrl m) \<and>
             list_all P (opportunities d)"
  shows "length acc + 100 * Suc k = 10100 \<Longrightarrow> list_all P acc \<Longrightarrow>
         \<exists>found s'. fetchAllOpportunities v cl stage after afterId acc pageCount s =
            Some (Fetched found [''Too many opportunities, stopping at 10000''],
                  pageCount + Suc k, s') \<and>
            length found = 10100 \<and> list_all P found"
proof (induction k arbitrary: acc after afterId pageCount s)
  case 0
  obtain d s1 m where g: "searchOpportunities cl (searchParamsOf v stage after afterId) s = (Success d, s1)"
    and d: "length (opportunities d) = 100" "meta d = Some m" "truthy (nextPageUrl m)"
           "list_all P (opportunities d)"
    using full [of "searchParamsOf v stage after afterId" s] by blast
  from d have h: "hasMorePages v (meta d)" by (cases v) simp_all
  from 0 d h show ?case by (simp add: fetchAllOpportunities_unfold [OF g])
next
  case (Suc k)
  obtain d s1 m where g: "searchOpportunities cl (searchParamsOf v stage after afterId) s = (Success d, s1)"
    and d: "length (opportunities d) = 100" "meta d = Some m" "truthy (nextPageUrl m)"
           "list_all P (opportunities d)"
    using full [of "searchParamsOf v stage after afterId" s] by blast
  from d have h: "hasMorePages v (meta d)" by (cases v) simp_all
  from Suc.prems d have l: "length (acc @ opportunities d) + 100 * Suc k = 10100"
    and p: "list_all P (acc @ opportunities d)" by simp_all
  from Suc.IH [OF l p, of "nextStartAfter v (meta d)" "nextStartAfterId (meta d)" "pageCount + 1" s1] l h
  show ?case by (simp add: fetchAllOpportunities_unfold [OF g])
qed

subsection \<open>The checking loop\<close>


lemma checkContact_total:
  "totalChecked (fst (checkContact v cl startDate inactivityDays c t s)) =
     totalChecked t + (if truthy (contact_id c) then 1 else 0)"
  by (auto simp: checkContact_def Let_def flag_def complain_def
      split: option.splits prod.splits sum.splits)

lemma checkContact_errors:
  "\<exists>es. errors (fst (checkContact v cl startDate inactivityDays c t s)) = errors t @ es"
  by (auto simp: checkContact_def Let_def flag_def complain_def
      split: option.splits prod.splits sum.splits)

lemma checkContacts_total:
  "totalChecked (fst (checkContacts v cl startDate inactivityDays cs t s)) =
     totalChecked t + length (filter (\<lambda>c. truthy (contact_id c)) cs)"
proof (induction cs arbitrary: t s)
  case Nil then show ?case by simp
next
  case (Cons c cs)
  obtain t1 s1 where st: "checkContact v cl startDate inactivityDays c t s = (t1, s1)" by fastforce
  have "totalChecked t1 = totalChecked t + (if truthy (contact_id c) then 1 else 0)"
    using checkContact_total [of v cl startDate inactivityDays c t s] st by simp
  with Cons.IH [of t1 s1] st show ?case by simp
qed

lemma checkContacts_errors:
  "\<exists>es. errors (fst (checkContacts v cl startDate inactivityDays cs t s)) = errors t @ es"
proof (induction cs arbitrary: t s)
  case Nil then show ?case by simp
next
  case (Cons c cs)
  obtain t1 s1 where st: "checkContact v cl startDate inactivityDays c t s = (t1, s1)" by fastforce
  obtain es where "errors t1 = errors t @ es"
    using checkContact_errors [of v cl startDate inactivityDays c t s] st by auto
  moreover obtain es' where "errors (fst (checkContacts v cl startDate inactivityDays cs t1 s1)) = errors t1 @ es'"
    using Cons.IH [of t1 s1] by blast
  ultimately show ?case using st by simp
qed


subsection \<open>The resolver of contacts\<close>

lemma scan_undated: "list_all (\<lambda>x. x = None) xs \<Longrightarrow> scan sd xs a = a"
  by (induction xs) simp_all

lemma absorb_undated: "list_all (\<lambda>x. x = None) (stampsOf r) \<Longrightarrow> absorb sd r a = a"
  by (cases r) (simp_all add: scan_undated)

lemma conclude_nothing: "conclude v (False, None) = Inr \<lparr>inactive = True, lastActivityDate = None\<rparr>"
  by (cases v) simp_all

text \<open>
  Where the dates of the conversations all parse and one of them is on or after the
  threshold date, \<open>checkContactActivity\<close> fetches the conversations and no other source,
  returns \<open>inactive = false\<close>, and reports the latest conversation date as
  \<open>lastActivityDate\<close>. The right-hand side mentions no other source of the client, so the
  appointments, notes and tasks have no influence on the result.
\<close>

lemma short_circuit_when_dates_parse:
  assumes "searchConversations cl contactId s0 = (Success convs, s1)"
    and "parses convs"
    and "list_ex (\<lambda>t. st \<le> t) (timesOf convs)"
  shows "checkContactActivity v cl contactId (Time st) s0 =
           (Inr \<lparr>inactive = False, lastActivityDate = map_option Time (latest (timesOf convs))\<rparr>,
            [Conversations], s1)"
proof -
  define a1 where "a1 = scan (Time st) convs (False, None)"
  have h: "fst a1" unfolding a1_def using assms(3) by (simp add: scan_fst)
  have l: "snd a1 = map_option Time (latest (timesOf convs))"
    unfolding a1_def using scan_snd [OF assms(2), of "Time st" False None] by simp
  then have "snd a1 \<noteq> Some Invalid" by (cases "latest (timesOf convs)") simp_all
  then have c: "conclude v a1 = Inr \<lparr>inactive = False, lastActivityDate = map_option Time (latest (timesOf convs))\<rparr>"
    using h l by (simp add: conclude_valid)
  show ?thesis
    unfolding checkContactActivity_def
    using h c by (simp add: assms(1) a1_def [symmetric])
qed

text \<open>
  An instance: the appointments are down, a note is recent and a task has a date that does
  not parse; none of them is looked at.
\<close>

lemma short_circuit_when_dates_parse_instance:
  "checkContactActivity Logging
     (scripted noContacts noOpportunities (\<lambda>i. Success [Some (Time 5), None, Some (Time 9)])
        (\<lambda>i. Rejected ''down'') (\<lambda>i. Success [Some (Time 50)]) (\<lambda>i. Success [Some Invalid]))
     ''c1'' (Time 7) 0 =
   (Inr \<lparr>inactive = False, lastActivityDate = Some (Time 9)\<rparr>, [Conversations], 0)"
  using short_circuit_when_dates_parse
    [of "scripted noContacts noOpportunities (\<lambda>i. Success [Some (Time 5), None, Some (Time 9)])
        (\<lambda>i. Rejected ''down'') (\<lambda>i. Success [Some (Time 50)]) (\<lambda>i. Success [Some Invalid])"
      "''c1''" 0 "[Some (Time 5), None, Some (Time 9)]" 0 7 Logging]
  by (simp add: scripted_def parses_def)

text \<open>
  A recent conversation ends the search whatever the dates are: no other source is
  fetched.
\<close>

lemma short_circuit_trace:
  assumes "searchConversations cl contactId s0 = (Success convs, s1)"
    and "list_ex (\<lambda>t. st \<le> t) (timesOf convs)"
  shows "snd (checkContactActivity v cl contactId (Time st) s0) = ([Conversations], s1)"
proof -
  have "fst (scan (Time st) convs (False, None))" using assms(2) by (simp add: scan_fst)
  then show ?thesis
    unfolding checkContactActivity_def by (simp add: assms(1))
qed

text \<open>
  Claim C6, at a contact whose first conversation has a date that does not parse and whose
  second conversation is recent (its date, 9, is after the threshold date, 7). The invalid
  date is stored first and no later date replaces it, since every comparison with it is
  false. No other source is fetched, as claimed. But the first version throws, from the
  log line after its \<open>try\<close> block, instead of returning \<open>inactive = false\<close>; and the second
  version returns the invalid date as \<open>lastActivityDate\<close>, not the latest date found.
\<close>

theorem short_circuit_unparseable_first:
  "list_ex (\<lambda>t. 7 \<le> t) (timesOf [Some Invalid, Some (Time 9)]) \<and>
   checkContactActivity Logging
     (scripted noContacts noOpportunities (\<lambda>i. Success [Some Invalid, Some (Time 9)])
        nothing nothing nothing) ''c1'' (Time 7) 0 =
     (Inl ''Invalid time value'', [Conversations], 0) \<and>
   checkContactActivity Plain
     (scripted noContacts noOpportunities (\<lambda>i. Success [Some Invalid, Some (Time 9)])
        nothing nothing nothing) ''c1'' (Time 7) 0 =
     (Inr \<lparr>inactive = False, lastActivityDate = Some Invalid\<rparr>, [Conversations], 0)"
  by (simp add: checkContactActivity_def scripted_sel invalidTimeValue_def)

text \<open>
  Claim C8. A contact whose conversations, appointments and notes deliver no record, and
  whose tasks all lack a due date, is classified inactive, with no \<open>lastActivityDate\<close>.
\<close>

theorem undated_tasks_are_no_signal:
  assumes "replies cl contactId s0 = [r1, r2, r3, r4]"
    and "stampsOf r1 = []" and "stampsOf r2 = []" and "stampsOf r3 = []"
    and "list_all (\<lambda>x. x = None) (stampsOf r4)"
  shows "fst (checkContactActivity v cl contactId (Time st) s0) =
           Inr \<lparr>inactive = True, lastActivityDate = None\<rparr>"
proof -
  obtain q1 s1 where f1: "searchConversations cl contactId s0 = (q1, s1)" by fastforce
  obtain q2 s2 where f2: "getContactAppointments cl contactId s1 = (q2, s2)" by fastforce
  obtain q3 s3 where f3: "getContactNotes cl contactId s2 = (q3, s3)" by fastforce
  obtain q4 s4 where f4: "getContactTasks cl contactId s3 = (q4, s4)" by fastforce
  from assms(1) have q: "q1 = r1" "q2 = r2" "q3 = r3" "q4 = r4"
    by (simp_all add: replies_def f1 f2 f3 f4)
  show ?thesis
    unfolding checkContactActivity_def
    using assms(2-5)
    by (cases r1; cases r2; cases r3; cases r4)
       (simp_all add: Let_def f1 f2 f3 f4 q conclude_nothing scan_undated)
qed

text \<open>
  An instance: one task without a due date and nothing else.
\<close>

theorem undated_tasks_are_no_signal_witness:
  "fst (checkContactActivity Logging
     (scripted noContacts noOpportunities nothing nothing nothing (\<lambda>i. Success [None]))
     ''c1'' (Time 7) 0) = Inr \<lparr>inactive = True, lastActivityDate = None\<rparr>"
  using undated_tasks_are_no_signal
    [of "scripted noContacts noOpportunities nothing nothing nothing (\<lambda>i. Success [None])"
      "''c1''" 0 "Success []" "Success []" "Success []" "Success [None]" Logging 7]
  by (simp add: scripted_def replies_def nothing_def)

text \<open>
  Claim C2, as the code has it. When every source answers and every date parses, a contact
  with at least one signal is inactive exactly when its latest signal is before the
  threshold date, the instant \<open>setDate\<close> leaves. Where that instant is \<open>thresholdDays\<close> times
  86400000 milliseconds before now (the offset of local time from UTC is the same at both
  dates, as in a zone with a fixed offset), the contact is inactive exactly when its latest
  signal is more than \<open>thresholdDays\<close> days old: a latest signal that is exactly
  \<open>thresholdDays - 1\<close> days old makes it active, and so does one that is exactly
  \<open>thresholdDays\<close> days old, since the code compares with \<open>>=\<close> and the threshold date itself
  counts as recent.
\<close>

theorem threshold_boundary:
  assumes "list_all (\<lambda>r. \<not> isRejected r \<and> parses (stampsOf r)) (replies cl contactId s0)"
    and "latest (signals cl contactId s0) = Some m"
  shows "\<exists>res. fst (checkContactActivity v cl contactId (startDateOf zone now thresholdDays) s0) =
             Inr res \<and>
           inactive res = (m < zone now thresholdDays) \<and>
           (zone now thresholdDays = now - thresholdDays * msPerDay \<longrightarrow>
              inactive res = (thresholdDays * msPerDay < now - m) \<and>
              (now - m = (thresholdDays - 1) * msPerDay \<longrightarrow> \<not> inactive res) \<and>
              (now - m = thresholdDays * msPerDay \<longrightarrow> \<not> inactive res))"
proof -
  let ?st = "zone now thresholdDays"
  obtain l where r: "fst (checkContactActivity v cl contactId (Time ?st) s0) =
      Inr \<lparr>inactive = \<not> list_ex (\<lambda>t. ?st \<le> t) (signals cl contactId s0), lastActivityDate = l\<rparr>"
    using check_answered [OF assms(1)] by blast
  have e: "list_ex (\<lambda>t. ?st \<le> t) (signals cl contactId s0) = (?st \<le> m)"
    using latest_ex [OF assms(2)] by simp
  have d: "(0::int) < msPerDay" by (simp add: msPerDay_def)
  have b: "now - m = (thresholdDays - 1) * msPerDay \<Longrightarrow> \<not> thresholdDays * msPerDay < now - m"
    using d by (simp add: algebra_simps)
  show ?thesis
    unfolding startDateOf_def r e using b by auto
qed

text \<open>
  An instance, in a zone with a fixed offset: the latest signal, a task due 29 days ago,
  makes the contact active.
\<close>

theorem threshold_boundary_witness:
  "\<exists>res. fst (checkContactActivity Logging
              (scripted noContacts noOpportunities (\<lambda>i. Success [Some (Time (60 * msPerDay))])
                 nothing (\<lambda>i. Failure None) (\<lambda>i. Success [None, Some (Time (71 * msPerDay))]))
              ''c1'' (startDateOf fixedOffset (100 * msPerDay) 30) 0) = Inr res \<and>
         \<not> inactive res \<and> 100 * msPerDay - 71 * msPerDay = (30 - 1) * msPerDay"
  using threshold_boundary
    [of "scripted noContacts noOpportunities (\<lambda>i. Success [Some (Time (60 * msPerDay))])
                 nothing (\<lambda>i. Failure None) (\<lambda>i. Success [None, Some (Time (71 * msPerDay))])"
      "''c1''" 0 "71 * msPerDay" Logging fixedOffset "100 * msPerDay" 30]
  by (simp add: scripted_def replies_def signals_def nothing_def parses_def msPerDay_def
      fixedOffset_def)

text \<open>
  The boundary itself, in a zone with a fixed offset: a contact whose only signal is a
  conversation exactly 30 days old, checked with a threshold of 30 days, is classified
  active.
\<close>

theorem threshold_boundary_counterexample:
  "fst (checkContactActivity Logging
          (scripted noContacts noOpportunities (\<lambda>i. Success [Some (Time (70 * msPerDay))])
             nothing nothing nothing)
          ''c1'' (startDateOf fixedOffset (100 * msPerDay) 30) 0) =
     Inr \<lparr>inactive = False, lastActivityDate = Some (Time (70 * msPerDay))\<rparr> \<and>
   100 * msPerDay - 70 * msPerDay = 30 * msPerDay"
  by (simp add: checkContactActivity_def scripted_def startDateOf_def fixedOffset_def
      msPerDay_def)

text \<open>
  Across a change to summer time the threshold date is an hour later than 30 times 24
  hours before now, and the same conversation, exactly 30 days old, is before it: the
  contact is classified inactive. The verdict on a signal within an hour of the boundary
  depends on the calendar of the time zone.
\<close>

lemma boundary_across_offset_change:
  "fst (checkContactActivity Logging
          (scripted noContacts noOpportunities (\<lambda>i. Success [Some (Time (70 * msPerDay))])
             nothing nothing nothing)
          ''c1'' (startDateOf acrossSpringChange (100 * msPerDay) 30) 0) =
     Inr \<lparr>inactive = True, lastActivityDate = Some (Time (70 * msPerDay))\<rparr>"
  by (simp add: checkContactActivity_def scripted_def startDateOf_def acrossSpringChange_def
      msPerDay_def nothing_def)

subsection \<open>The resolver of opportunities\<close>

lemma later_valid:
  "later (Time t) (map_option Time lo) = Some (Time (case lo of None \<Rightarrow> t | Some m \<Rightarrow> max m t))"
  by (cases lo) (auto simp: max_def)

text \<open>
  For an opportunity whose two timestamp fields, where present, parse, the last activity
  is the later of the fields present; the opportunity is inactive exactly when there is no
  such date or it is strictly before the threshold date; and an opportunity with an id is
  then flagged with that date, or with none when both fields are absent.
\<close>

lemma opportunity_max_when_dates_parse:
  assumes "lastStatusChangeAt opp \<noteq> Some Invalid" and "lastStageChangeAt opp \<noteq> Some Invalid"
  shows "lastActivityOf opp =
           map_option Time (latest (timesOf [lastStatusChangeAt opp, lastStageChangeAt opp])) \<and>
         isInactive (Time st) (lastActivityOf opp) =
           (case latest (timesOf [lastStatusChangeAt opp, lastStageChangeAt opp]) of
              None \<Rightarrow> True
            | Some m \<Rightarrow> m < st) \<and>
         (truthy (opportunity_id opp) \<longrightarrow>
            checkOpportunity (Time st) inactivityDays opp t =
              (case latest (timesOf [lastStatusChangeAt opp, lastStageChangeAt opp]) of
                 None \<Rightarrow> flag opp inactivityDays None (t\<lparr>totalChecked := totalChecked t + 1\<rparr>)
               | Some m \<Rightarrow>
                   if m < st
                   then flag opp inactivityDays (Some m) (t\<lparr>totalChecked := totalChecked t + 1\<rparr>)
                   else t\<lparr>totalChecked := totalChecked t + 1\<rparr>))"
proof -
  obtain a where a: "lastStatusChangeAt opp = map_option Time a"
    using valid_date_option [OF assms(1)] by blast
  obtain b where b: "lastStageChangeAt opp = map_option Time b"
    using valid_date_option [OF assms(2)] by blast
  have l: "lastActivityOf opp = map_option Time (latest (timesOf [map_option Time a, map_option Time b]))"
    unfolding lastActivityOf_def a b
    by (cases a; cases b) (simp_all add: max_def)
  show ?thesis
    unfolding l [unfolded a [symmetric] b [symmetric]] checkOpportunity_def
    unfolding a b
    by (cases a; cases b; cases "opportunity_id opp") (auto simp: Let_def max_def)
qed

text \<open>
  An instance: status changed at 5, stage at 3, threshold date 7.
\<close>

lemma opportunity_max_when_dates_parse_instance:
  "lastActivityOf \<lparr>opportunity_id = Some ''o1'', lastStatusChangeAt = Some (Time 5),
      lastStageChangeAt = Some (Time 3), opportunity_fields = []\<rparr> = Some (Time 5) \<and>
   isInactive (Time 7) (lastActivityOf \<lparr>opportunity_id = Some ''o1'',
      lastStatusChangeAt = Some (Time 5), lastStageChangeAt = Some (Time 3),
      opportunity_fields = []\<rparr>) \<and>
   inactiveEntities (checkOpportunity (Time 7) 30 \<lparr>opportunity_id = Some ''o1'',
      lastStatusChangeAt = Some (Time 5), lastStageChangeAt = Some (Time 3),
      opportunity_fields = []\<rparr> \<lparr>inactiveEntities = [], totalChecked = 0, errors = []\<rparr>) =
     [\<lparr>entity = \<lparr>opportunity_id = Some ''o1'', lastStatusChangeAt = Some (Time 5),
         lastStageChangeAt = Some (Time 3), opportunity_fields = []\<rparr>,
       daysInactive = 30, lastActivityDateISO = Some 5\<rparr>]"
  using opportunity_max_when_dates_parse
    [of "\<lparr>opportunity_id = Some ''o1'', lastStatusChangeAt = Some (Time 5),
      lastStageChangeAt = Some (Time 3), opportunity_fields = []\<rparr>" 7 30
      "\<lparr>inactiveEntities = [], totalChecked = 0, errors = []\<rparr>"]
  by (simp add: flag_def)

text \<open>
  Claim C7, at an opportunity whose \<open>lastStatusChangeAt\<close> does not parse and whose
  \<open>lastStageChangeAt\<close>, 3, is before the threshold date, 7. The invalid date is stored
  first and the stage date does not replace it; an invalid date is not before the
  threshold date, so the opportunity counts as active and is not flagged, although the
  only date it has is stale. With the two fields exchanged the stage date is skipped
  instead, and the same opportunity is inactive, with 3 as its last activity.
\<close>

theorem opportunity_unparseable_field:
  "lastActivityOf garbledStatus = Some Invalid \<and>
   \<not> isInactive (Time 7) (lastActivityOf garbledStatus) \<and>
   checkOpportunity (Time 7) 30 garbledStatus
       \<lparr>inactiveEntities = [], totalChecked = 0, errors = []\<rparr> =
     \<lparr>inactiveEntities = [], totalChecked = 1, errors = []\<rparr> \<and>
   latest (timesOf [lastStatusChangeAt garbledStatus, lastStageChangeAt garbledStatus]) = Some 3 \<and>
   lastActivityOf garbledStage = Some (Time 3) \<and>
   isInactive (Time 7) (lastActivityOf garbledStage)"
  by (simp add: lastActivityOf_def checkOpportunity_def garbledStatus_def garbledStage_def
      Let_def)

subsection \<open>Pagination of contacts and the safety limits\<close>





lemma endless_full:
  "\<exists>d s1. searchContacts (scripted endlessContacts op c1 c2 c3 c4) after s = (Success d, s1) \<and>
     length (contacts d) = 100 \<and> searchAfter d \<noteq> None \<and>
     list_all (\<lambda>c. truthy (contact_id c)) (contacts d)"
  by (simp add: scripted_def endlessContacts_def person_def list_all_iff)

lemma endless_run:
  "\<exists>found. fetchAllContacts (scripted endlessContacts op c1 c2 c3 c4) None [] 0 0 =
     (Fetched found [''Too many contacts, stopping at 50000''], 501, 501) \<and>
     length found = 50100 \<and> list_all (\<lambda>c. truthy (contact_id c)) found"
proof -
  let ?cl = "scripted endlessContacts op c1 c2 c3 c4"
  have sc: "snd (snd (fetchAllContacts ?cl after acc pageCount s)) = s + (fst (snd (fetchAllContacts ?cl after acc pageCount s)) - pageCount)"
    for after acc pageCount s
  proof (induction ?cl after acc pageCount s rule: fetchAllContacts.induct)
    case (1 after acc pageCount s)
    have g: "searchContacts ?cl after s = (endlessContacts s, Suc s)" by (simp add: scripted_def)
    obtain d where d: "endlessContacts s = Success d" by (simp add: endlessContacts_def)
    have p: "pageCount + 1 + 1 \<le> fst (snd (fetchAllContacts ?cl (searchAfter d) (acc @ contacts d) (pageCount + 1) (Suc s)))"
      by (rule fetchAllContacts_pages)
    show ?case
      using "1.hyps" [OF g [unfolded d, symmetric] refl refl refl] p
      by (auto simp: fetchAllContacts_unfold [OF g [unfolded d]])
  qed
  obtain found s' where r: "fetchAllContacts ?cl None [] 0 0 =
      (Fetched found [''Too many contacts, stopping at 50000''], 0 + Suc 500, s')"
    and l: "length found = 50100" "list_all (\<lambda>c. truthy (contact_id c)) found"
    using full_pages_run [of ?cl "\<lambda>c. truthy (contact_id c)" "[]" 500 None 0 0, OF endless_full]
    by auto
  from sc [of None "[]" 0 0] r have "s' = 501" by simp
  with r l show ?thesis by auto
qed


lemma checkOpportunity_total:
  "totalChecked (checkOpportunity startDate inactivityDays opp t) =
     totalChecked t + (if truthy (opportunity_id opp) then 1 else 0)"
  by (auto simp: checkOpportunity_def Let_def flag_def complain_def
      split: option.splits sum.splits)

lemma checkOpportunity_errors:
  "\<exists>es. errors (checkOpportunity startDate inactivityDays opp t) = errors t @ es"
  by (auto simp: checkOpportunity_def Let_def flag_def complain_def
      split: option.splits sum.splits)

lemma checkOpportunities_total:
  "totalChecked (checkOpportunities startDate inactivityDays opps t) =
     totalChecked t + length (filter (\<lambda>opp. truthy (opportunity_id opp)) opps)"
  by (induction opps arbitrary: t) (simp_all add: checkOpportunity_total)

lemma checkOpportunities_errors:
  "\<exists>es. errors (checkOpportunities startDate inactivityDays opps t) = errors t @ es"
proof (induction opps arbitrary: t)
  case Nil then show ?case by simp
next
  case (Cons opp opps)
  obtain es where "errors (checkOpportunity startDate inactivityDays opp t) = errors t @ es"
    using checkOpportunity_errors by blast
  moreover obtain es' where
    "errors (checkOpportunities startDate inactivityDays opps (checkOpportunity startDate inactivityDays opp t)) =
       errors (checkOpportunity startDate inactivityDays opp t) @ es'"
    using Cons.IH by blast
  ultimately show ?case by simp
qed

lemma all_have_ids: "list_all P xs \<Longrightarrow> length (filter P xs) = length xs"
  by (induction xs) simp_all

lemma endless_opportunities_full:
  "\<exists>d s1 m. searchOpportunities (scripted cp endlessOpportunities c1 c2 c3 c4) params s = (Success d, s1) \<and>
     length (opportunities d) = 100 \<and> meta d = Some m \<and> truthy (nextPageUrl m) \<and>
     list_all (\<lambda>opp. truthy (opportunity_id opp)) (opportunities d)"
  by (simp add: scripted_def endlessOpportunities_def someOpportunity_def list_all_iff)

lemma endless_opportunities_run:
  "\<exists>found s'. fetchAllOpportunities v (scripted cp endlessOpportunities c1 c2 c3 c4)
       stage None [] [] 0 0 =
     Some (Fetched found [''Too many opportunities, stopping at 10000''], 101, s') \<and>
     length found = 10100 \<and> list_all (\<lambda>opp. truthy (opportunity_id opp)) found"
  using full_opportunity_pages_run
    [of "scripted cp endlessOpportunities c1 c2 c3 c4" "\<lambda>opp. truthy (opportunity_id opp)"
      "[]" 100 v stage None "[]" 0 0, OF endless_opportunities_full]
  by auto

text \<open>
  Claim C3, at the endless backend. Every page holds 100 entities and announces a next
  one. The contact loop tests \<open>contacts.length > 50000\<close> after it has added the page, so it
  ends after the 501st page with 50100 contacts, all of which are checked; the advisory is
  the first entry of \<open>errors\<close> and a report is returned. The opportunity loop ends likewise
  with 10100 opportunities.
\<close>

theorem cap_overshoot:
  "totalChecked (fst (detectContactsInactivity v
      (scripted endlessContacts endlessOpportunities nothing nothing nothing nothing)
      zone now inactivityDays 0)) = 50100 \<and>
   hd (errors (fst (detectContactsInactivity v
      (scripted endlessContacts endlessOpportunities nothing nothing nothing nothing)
      zone now inactivityDays 0))) = ''Too many contacts, stopping at 50000'' \<and>
   (\<exists>r s. detectOpportunitiesInactivity v
      (scripted endlessContacts endlessOpportunities nothing nothing nothing nothing)
      zone now inactivityDays stage 0 = Some (r, s) \<and>
      totalChecked r = 10100 \<and>
      hd (errors r) = ''Too many opportunities, stopping at 10000'')"
proof -
  let ?cl = "scripted endlessContacts endlessOpportunities nothing nothing nothing nothing"
  let ?sd = "startDateOf zone now inactivityDays"
  obtain found where f: "fetchAllContacts ?cl None [] 0 0 =
      (Fetched found [''Too many contacts, stopping at 50000''], 501, 501)"
    and l: "length found = 50100" and i: "list_all (\<lambda>c. truthy (contact_id c)) found"
    using endless_run [of endlessOpportunities nothing nothing nothing nothing] by blast
  let ?t0 = "\<lparr>inactiveEntities = [], totalChecked = 0,
               errors = [''Too many contacts, stopping at 50000'']\<rparr> :: contact tally"
  obtain t s2 where c: "checkContacts v ?cl ?sd inactivityDays found ?t0 501 = (t, s2)"
    by fastforce
  have d: "fst (detectContactsInactivity v ?cl zone now inactivityDays 0) = reportOf t inactivityDays"
    by (simp add: detectContactsInactivity_def f c)
  have n: "totalChecked t = 50100"
    using checkContacts_total [of v ?cl ?sd inactivityDays found ?t0 501] c l all_have_ids [OF i]
    by simp
  obtain es where e: "errors t = [''Too many contacts, stopping at 50000''] @ es"
    using checkContacts_errors [of v ?cl ?sd inactivityDays found ?t0 501] c by auto
  obtain ofound s' where g: "fetchAllOpportunities v ?cl stage None [] [] 0 0 =
      Some (Fetched ofound [''Too many opportunities, stopping at 10000''], 101, s')"
    and ol: "length ofound = 10100" and oi: "list_all (\<lambda>opp. truthy (opportunity_id opp)) ofound"
    using endless_opportunities_run [of v endlessContacts nothing nothing nothing nothing stage]
    by blast
  let ?u0 = "\<lparr>inactiveEntities = [], totalChecked = 0,
               errors = [''Too many opportunities, stopping at 10000'']\<rparr> :: opportunity tally"
  define u where "u = checkOpportunities ?sd inactivityDays ofound ?u0"
  have od: "detectOpportunitiesInactivity v ?cl zone now inactivityDays stage 0 =
      Some (reportOf u inactivityDays, s')"
    by (simp add: detectOpportunitiesInactivity_def g u_def)
  have on: "totalChecked u = 10100"
    unfolding u_def using ol all_have_ids [OF oi] by (simp add: checkOpportunities_total)
  obtain oes where oe: "errors u = [''Too many opportunities, stopping at 10000''] @ oes"
    unfolding u_def using checkOpportunities_errors [of ?sd inactivityDays ofound ?u0] by auto
  show ?thesis
    unfolding d od using n e on oe by (simp add: reportOf_def)
qed

lemma second_page_fails_run:
  "fetchAllContacts (scripted secondPageFails op c1 c2 c3 c4) None [] 0 0 = (Thrown ''boom'', 2, 2)"
proof -
  let ?cl = "scripted secondPageFails op c1 c2 c3 c4"
  have g1: "searchContacts ?cl None 0 =
      (Success \<lparr>contacts = replicate 100 (person ''c''), searchAfter = Some (0, ''c'')\<rparr>, 1)"
    by (simp add: scripted_def secondPageFails_def)
  have "fetchAllContacts ?cl (Some (0, ''c'')) (replicate 100 (person ''c'')) 1 1 =
      (Thrown ''boom'', 2, 2)"
    by (subst fetchAllContacts.simps) (simp add: scripted_def secondPageFails_def)
  then show ?thesis by (simp add: fetchAllContacts_unfold [OF g1])
qed

lemma contactsLoopAt_run:
  "contactsLoopAt cl s0 after acc pageCount s \<Longrightarrow>
   fetchAllContacts cl None [] 0 s0 = fetchAllContacts cl after acc pageCount s"
proof (induction rule: contactsLoopAt.induct)
  case start
  show ?case by simp
next
  case (page after acc pageCount s d s1)
  have "fetchAllContacts cl after acc pageCount s =
      fetchAllContacts cl (searchAfter d) (acc @ contacts d) (pageCount + 1) s1"
    using page.hyps(3-5) by (auto simp: fetchAllContacts_unfold [OF page.hyps(2)])
  with page.IH show ?case by simp
qed

lemma opportunitiesLoopAt_run:
  "opportunitiesLoopAt v cl stage s0 after afterId acc pageCount s \<Longrightarrow>
   fetchAllOpportunities v cl stage None [] [] 0 s0 =
   fetchAllOpportunities v cl stage after afterId acc pageCount s"
proof (induction rule: opportunitiesLoopAt.induct)
  case start
  show ?case by simp
next
  case (page after afterId acc pageCount s d s1)
  have "fetchAllOpportunities v cl stage after afterId acc pageCount s =
      fetchAllOpportunities v cl stage (nextStartAfter v (meta d)) (nextStartAfterId (meta d))
        (acc @ opportunities d) (pageCount + 1) s1"
    using page.hyps(3-4) by (auto simp: fetchAllOpportunities_unfold [OF page.hyps(2)])
  with page.IH show ?case by simp
qed

lemma fetchAllContacts_failure:
  "searchContacts cl after s = (r, s1) \<Longrightarrow> failureText ''Failed to search contacts'' r = Some m \<Longrightarrow>
   fetchAllContacts cl after acc pageCount s = (Thrown m, pageCount + 1, s1)"
  by (subst fetchAllContacts.simps) (cases r; simp)

lemma fetchAllOpportunities_failure:
  "searchOpportunities cl (searchParamsOf v stage after afterId) s = (r, s1) \<Longrightarrow>
   failureText ''Failed to search opportunities'' r = Some m \<Longrightarrow>
   fetchAllOpportunities v cl stage after afterId acc pageCount s = Some (Thrown m, pageCount + 1, s1)"
  by (subst fetchAllOpportunities.simps) (cases r; simp)

text \<open>
  Claim C1, as the code has it. Take any run of the pagination loop that has fetched any
  number of pages and gone on after each, and whose next fetch fails (the promise is
  rejected, or the response is not a success). The error leaves the outer \<open>try\<close> block,
  which also holds the checking loop: the detector returns a report with no entity
  checked, none flagged, and exactly one error string, which carries the message of the
  failure. The same holds for the opportunities.
\<close>

theorem page_failure_report:
  "(contactsLoopAt cl s0 after acc pageCount s \<and> searchContacts cl after s = (r, s1) \<and>
    failureText ''Failed to search contacts'' r = Some m \<longrightarrow>
      detectContactsInactivity v cl zone now inactivityDays s0 =
        (\<lparr>inactiveEntities = [], totalChecked = 0,
          errors = [''Error fetching contacts: '' @ m], inactiveCount = 0,
          inactivityThresholdDays = inactivityDays\<rparr>, s1)) \<and>
   (opportunitiesLoopAt v cl stage s0 oafter oafterId oacc opageCount os \<and>
    searchOpportunities cl (searchParamsOf v stage oafter oafterId) os = (orep, os1) \<and>
    failureText ''Failed to search opportunities'' orep = Some om \<longrightarrow>
      detectOpportunitiesInactivity v cl zone now inactivityDays stage s0 =
        Some (\<lparr>inactiveEntities = [], totalChecked = 0,
               errors = [''Error fetching opportunities: '' @ om], inactiveCount = 0,
               inactivityThresholdDays = inactivityDays\<rparr>, os1))"
proof (intro conjI impI, goal_cases)
  case 1
  then have "fetchAllContacts cl None [] 0 s0 = (Thrown m, pageCount + 1, s1)"
    using contactsLoopAt_run [of cl s0 after acc pageCount s]
      fetchAllContacts_failure [of cl after s r s1 m acc pageCount] by simp
  then show ?case by (simp add: detectContactsInactivity_def reportOf_def)
next
  case 2
  then have "fetchAllOpportunities v cl stage None [] [] 0 s0 = Some (Thrown om, opageCount + 1, os1)"
    using opportunitiesLoopAt_run [of v cl stage s0 oafter oafterId oacc opageCount os]
      fetchAllOpportunities_failure [of cl v stage oafter oafterId os orep os1 om oacc opageCount]
    by simp
  then show ?case by (simp add: detectOpportunitiesInactivity_def reportOf_def)
qed

text \<open>
  An instance: the first page is full and announces a next one, the second fetch fails.
\<close>

theorem page_failure_report_witness:
  "detectContactsInactivity Logging
         (scripted secondPageFails secondOpportunityPageFails nothing nothing nothing nothing)
         fixedOffset (100 * msPerDay) 30 0 =
     (\<lparr>inactiveEntities = [], totalChecked = 0,
       errors = [''Error fetching contacts: boom''], inactiveCount = 0,
       inactivityThresholdDays = 30\<rparr>, 2) \<and>
   detectOpportunitiesInactivity Logging
         (scripted secondPageFails secondOpportunityPageFails nothing nothing nothing nothing)
         fixedOffset (100 * msPerDay) 30 None 0 =
     Some (\<lparr>inactiveEntities = [], totalChecked = 0,
            errors = [''Error fetching opportunities: timeout''], inactiveCount = 0,
            inactivityThresholdDays = 30\<rparr>, 2)"
proof -
  let ?cl = "scripted secondPageFails secondOpportunityPageFails nothing nothing nothing nothing"
  let ?d = "\<lparr>contacts = replicate 100 (person ''c''), searchAfter = Some (0, ''c'')\<rparr>"
  have c: "contactsLoopAt ?cl 0 (searchAfter ?d) ([] @ contacts ?d) (0 + 1) 1"
    by (rule contactsLoopAt.page [OF contactsLoopAt.start])
       (simp_all add: scripted_sel secondPageFails_def)
  obtain od where od: "endlessOpportunities 0 = Success od"
    by (simp add: endlessOpportunities_def)
  have o: "opportunitiesLoopAt Logging ?cl None 0 (nextStartAfter Logging (meta od))
      (nextStartAfterId (meta od)) ([] @ opportunities od) (0 + 1) 1"
    by (rule opportunitiesLoopAt.page [OF opportunitiesLoopAt.start])
       (use od in \<open>auto simp: scripted_sel secondOpportunityPageFails_def endlessOpportunities_def\<close>)
  show ?thesis
    using page_failure_report
      [of ?cl 0 "searchAfter ?d" "[] @ contacts ?d" "0 + 1" 1 "Failure (Some ''boom'')" 2 "''boom''"
        Logging fixedOffset "100 * msPerDay" 30 None "nextStartAfter Logging (meta od)"
        "nextStartAfterId (meta od)" "[] @ opportunities od" "0 + 1" 1 "Rejected ''timeout''" 2
        "''timeout''"]
      c o
    by (simp add: scripted_sel secondPageFails_def secondOpportunityPageFails_def)
qed

text \<open>
  The 100 contacts of the first page, which all have an id, are not checked when the second
  fetch fails: the report counts no contact and flags none.
\<close>

theorem page_failure_counterexample:
  "secondPageFails 0 =
     Success \<lparr>contacts = replicate 100 (person ''c''), searchAfter = Some (0, ''c'')\<rparr> \<and>
   totalChecked (fst (detectContactsInactivity Logging
         (scripted secondPageFails noOpportunities nothing nothing nothing nothing)
         fixedOffset (100 * msPerDay) 30 0)) = 0 \<and>
   inactiveEntities (fst (detectContactsInactivity Logging
         (scripted secondPageFails noOpportunities nothing nothing nothing nothing)
         fixedOffset (100 * msPerDay) 30 0)) = []"
  by (simp add: detectContactsInactivity_def second_page_fails_run reportOf_def secondPageFails_def)

subsection \<open>Pagination of opportunities\<close>








text \<open>
  The second version of the class (lines 643--649) does follow the page numbers: a
  response without \<open>nextPageUrl\<close> whose \<open>nextPage\<close> exceeds \<open>currentPage\<close> makes it fetch a
  second page, where the first version stops.
\<close>

lemma plain_version_follows_page_numbers:
  "fetchAllOpportunities Plain (scripted noContacts numbersOnly nothing nothing nothing nothing)
     None None [] [] 0 0 = Some (Fetched [someOpportunity] [], 2, 2) \<and>
   fetchAllOpportunities Logging (scripted noContacts numbersOnly nothing nothing nothing nothing)
     None None [] [] 0 0 = Some (Fetched [someOpportunity] [], 1, 1)"
proof -
  let ?cl = "scripted noContacts numbersOnly nothing nothing nothing nothing"
  have "fetchAllOpportunities Plain ?cl None a b [someOpportunity] 1 1 =
      Some (Fetched [someOpportunity] [], 2, 2)" for a b
    by (subst fetchAllOpportunities.simps) (simp add: scripted_def numbersOnly_def)
  then have "fetchAllOpportunities Plain ?cl None None [] [] 0 0 =
      Some (Fetched [someOpportunity] [], 2, 2)"
    by (subst fetchAllOpportunities.simps) (simp add: scripted_def numbersOnly_def)
  moreover have "fetchAllOpportunities Logging ?cl None None [] [] 0 0 =
      Some (Fetched [someOpportunity] [], 1, 1)"
    by (subst fetchAllOpportunities.simps) (simp add: scripted_def numbersOnly_def)
  ultimately show ?thesis by simp
qed

subsection \<open>Errors of single contacts\<close>






lemma one_page_run:
  "fetchAllContacts (scripted (onePage cs) op c1 c2 c3 c4) None [] 0 0 = (Fetched cs [], 1, 1)"
  by (subst fetchAllContacts.simps) (simp add: scripted_sel onePage_def)


text \<open>
  Claim C10, at a backend where the two versions differ. The only contact has two
  conversations: the date of the first does not parse, the second is recent. Both versions
  find the contact active, with an invalid \<open>lastActivityDate\<close>. The first version then
  evaluates \<open>result.lastActivityDate?.toISOString()\<close> for its log line, outside the \<open>try\<close>
  block of \<open>checkContactActivity\<close>, which throws; the detector records an error for the
  contact. The second version has no such line and reports no error.
\<close>

theorem variants_differ:
  "fst (detectContactsInactivity Logging
         (scripted (onePage [person ''c1'']) noOpportunities (garbledThenRecent now)
            nothing nothing nothing) fixedOffset now 30 0) =
     \<lparr>inactiveEntities = [], totalChecked = 1,
      errors = [''Error checking contact c1: Invalid time value''],
      inactiveCount = 0, inactivityThresholdDays = 30\<rparr> \<and>
   fst (detectContactsInactivity Plain
         (scripted (onePage [person ''c1'']) noOpportunities (garbledThenRecent now)
            nothing nothing nothing) fixedOffset now 30 0) =
     \<lparr>inactiveEntities = [], totalChecked = 1, errors = [],
      inactiveCount = 0, inactivityThresholdDays = 30\<rparr>"
  by (simp add: detectContactsInactivity_def one_page_run checkContact_def resolveContact_def
      checkContactActivity_def scripted_sel garbledThenRecent_def person_def startDateOf_def
      fixedOffset_def msPerDay_def Let_def reportOf_def complain_def errorChecking_def invalidTimeValue_def)

subsection \<open>The two versions of the contact detector\<close>

lemma conclude_agree: "snd a \<noteq> Some Invalid \<Longrightarrow> conclude Logging a = conclude Plain a"
  by (simp add: conclude_valid)

text \<open>
  Where every date parses the two versions of the contact detector agree.
\<close>

lemma checkContactActivity_agree:
  assumes "wellDated cl"
  shows "checkContactActivity Logging cl i (Time st) s0 =
         checkContactActivity Plain cl i (Time st) s0"
proof -
  obtain r1 s1 where f1: "searchConversations cl i s0 = (r1, s1)" by fastforce
  obtain r2 s2 where f2: "getContactAppointments cl i s1 = (r2, s2)" by fastforce
  obtain r3 s3 where f3: "getContactNotes cl i s2 = (r3, s3)" by fastforce
  obtain r4 s4 where f4: "getContactTasks cl i s3 = (r4, s4)" by fastforce
  have p: "parses (stampsOf r1)" "parses (stampsOf r2)" "parses (stampsOf r3)" "parses (stampsOf r4)"
    using assms f1 f2 f3 f4 unfolding wellDated_def
    by (metis fst_conv)+
  show ?thesis
    unfolding checkContactActivity_def using p
    by (cases r1; cases r2; cases r3; cases r4)
       (simp_all add: Let_def f1 f2 f3 f4 conclude_agree scan_snd_valid cong: if_cong)
qed

lemma checkContacts_agree:
  assumes "wellDated cl"
  shows "checkContacts Logging cl (Time st) days cs t s =
         checkContacts Plain cl (Time st) days cs t s"
proof (induction cs arbitrary: t s)
  case Nil then show ?case by simp
next
  case (Cons c cs)
  have "resolveContact Logging cl i (Time st) s = resolveContact Plain cl i (Time st) s" for i
    by (simp add: resolveContact_def checkContactActivity_agree [OF assms])
  then have "checkContact Logging cl (Time st) days c t s =
      checkContact Plain cl (Time st) days c t s"
    by (simp add: checkContact_def Let_def split: option.splits)
  with Cons.IH show ?case by (simp split: prod.splits)
qed

lemma versions_agree_on_parsed_dates:
  "wellDated cl \<Longrightarrow>
   detectContactsInactivity Logging cl zone now inactivityDays s0 =
   detectContactsInactivity Plain cl zone now inactivityDays s0"
  by (simp add: detectContactsInactivity_def startDateOf_def checkContacts_agree
      split: prod.splits fetched.splits)

lemma wellDated_instance:
  "wellDated (scripted cp op nothing nothing nothing (\<lambda>i. Success [None, Some (Time 3)]))"
  by (simp add: wellDated_def scripted_sel nothing_def parses_def)

end
